theory Spec2Isabelle
  imports Complex_Main "HOL-Library.AList" "HOL-Library.Sublist"
begin

section \<open>JavaScript values used by the sources\<close>

text \<open>
  Array.prototype.indexOf and Array.prototype.findIndex return the first matching
  position, or -1 when there is none; the result is a JavaScript number, an \<open>int\<close> here.
\<close>

fun findIndex :: "('a \<Rightarrow> bool) \<Rightarrow> 'a list \<Rightarrow> int" where
  "findIndex p [] = -1"
| "findIndex p (x # xs) =
     (if p x then 0 else (let r = findIndex p xs in if r < 0 then -1 else r + 1))"

definition indexOf :: "'a list \<Rightarrow> 'a \<Rightarrow> int" where
  "indexOf xs a = findIndex (\<lambda>x. x = a) xs"

text \<open>
  The remainder operator \<open>%\<close> takes the sign of the dividend.
\<close>

definition js_rem :: "int \<Rightarrow> int \<Rightarrow> int" where
  "js_rem a b = sgn a * (\<bar>a\<bar> mod \<bar>b\<bar>)"

text \<open>
  A JavaScript number where the player computes with media times: not-a-number, the two
  infinities, or a finite value. Finite values are rationals and the arithmetic on them
  is exact: the rounding of binary floating point and the sign of zero are left out.
\<close>

datatype number = NaN | PosInf | NegInf | Fin rat

fun num_mul :: "number \<Rightarrow> number \<Rightarrow> number" where
  "num_mul NaN y = NaN"
| "num_mul x NaN = NaN"
| "num_mul (Fin a) (Fin b) = Fin (a * b)"
| "num_mul (Fin a) PosInf = (if a = 0 then NaN else if a > 0 then PosInf else NegInf)"
| "num_mul (Fin a) NegInf = (if a = 0 then NaN else if a > 0 then NegInf else PosInf)"
| "num_mul PosInf (Fin b) = (if b = 0 then NaN else if b > 0 then PosInf else NegInf)"
| "num_mul NegInf (Fin b) = (if b = 0 then NaN else if b > 0 then NegInf else PosInf)"
| "num_mul PosInf PosInf = PosInf"
| "num_mul PosInf NegInf = NegInf"
| "num_mul NegInf PosInf = NegInf"
| "num_mul NegInf NegInf = PosInf"

fun num_div :: "number \<Rightarrow> number \<Rightarrow> number" where
  "num_div NaN y = NaN"
| "num_div x NaN = NaN"
| "num_div (Fin a) (Fin b) =
     (if b = 0 then (if a = 0 then NaN else if a > 0 then PosInf else NegInf)
      else Fin (a / b))"
| "num_div (Fin a) PosInf = Fin 0"
| "num_div (Fin a) NegInf = Fin 0"
| "num_div PosInf (Fin b) = (if b \<ge> 0 then PosInf else NegInf)"
| "num_div NegInf (Fin b) = (if b \<ge> 0 then NegInf else PosInf)"
| "num_div PosInf PosInf = NaN"
| "num_div PosInf NegInf = NaN"
| "num_div NegInf PosInf = NaN"
| "num_div NegInf NegInf = NaN"

text \<open>A number is falsy when it is zero or not-a-number.\<close>

definition truthy_number :: "number \<Rightarrow> bool" where
  "truthy_number x = (x \<noteq> NaN \<and> x \<noteq> Fin 0)"

section \<open>types.ts\<close>

record VideoFile =
  id_v :: string
  name :: string
  size_v :: string
  url :: string
  type_v :: string
  lastModified :: int
  folderName :: string
  relativePath :: string

datatype AspectRatio = FIT | STRETCH | CROP | SIXTEEN_NINE | FOUR_THREE

text \<open>
  \<open>playbackSpeed\<close> is a \<open>number\<close>; the program only ever stores the literal \<open>1\<close> and
  elements of its list of speeds there, so it is a rational here.
\<close>

record PlayerSettings =
  playbackSpeed :: rat
  aspectRatio :: AspectRatio
  isLocked :: bool

section \<open>App.tsx: the root controller\<close>

text \<open>
  The two \<open>useState\<close> cells of \<open>App\<close>. \<open>currentVideoIndex\<close> is \<open>number | null\<close>.
\<close>

record app =
  videos :: "VideoFile list"
  currentVideoIndex :: "int option"

definition app_init :: app where
  "app_init = \<lparr>videos = [], currentVideoIndex = None\<rparr>"

definition handleAddVideos :: "VideoFile list \<Rightarrow> app \<Rightarrow> app" where
  "handleAddVideos newVideos s = s\<lparr>videos := videos s @ newVideos\<rparr>"

definition handlePlayVideo :: "int \<Rightarrow> app \<Rightarrow> app" where
  "handlePlayVideo index s = s\<lparr>currentVideoIndex := Some index\<rparr>"

definition handleBackToLibrary :: "app \<Rightarrow> app" where
  "handleBackToLibrary s = s\<lparr>currentVideoIndex := None\<rparr>"

definition handleNextVideo :: "app \<Rightarrow> app" where
  "handleNextVideo s =
     (case currentVideoIndex s of
        None \<Rightarrow> s
      | Some i \<Rightarrow>
          if i < int (length (videos s)) - 1
          then s\<lparr>currentVideoIndex := Some (i + 1)\<rparr>
          else s)"

definition handlePrevVideo :: "app \<Rightarrow> app" where
  "handlePrevVideo s =
     (case currentVideoIndex s of
        None \<Rightarrow> s
      | Some i \<Rightarrow>
          if i > 0
          then s\<lparr>currentVideoIndex := Some (i - 1)\<rparr>
          else s)"

text \<open>The current index, when set, addresses an element of the list.\<close>

definition index_in_bounds :: "app \<Rightarrow> bool" where
  "index_in_bounds s =
     (case currentVideoIndex s of
        None \<Rightarrow> True
      | Some i \<Rightarrow> 0 \<le> i \<and> i < int (length (videos s)))"

section \<open>VideoLibrary.tsx: the library view\<close>

subsection \<open>Folder selection (\<open>handleFolderSelect\<close>)\<close>

text \<open>
  A browser \<open>File\<close> as the handler reads it. \<open>size\<close> is a byte count, a non-negative
  integer.
\<close>

record jsfile =
  file_name :: string
  file_size :: nat
  file_type :: string
  file_lastModified :: int
  webkitRelativePath :: string

text \<open>
  The two browser calls of the handler whose results the program does not determine:
  \<open>randomId k\<close> is the value of \<open>Math.random().toString(36).substr(2, 9)\<close> and
  \<open>createObjectURL k\<close> the value of \<open>URL.createObjectURL(file)\<close> at the \<open>k\<close>-th
  element of the \<open>map\<close> over the selected batch.
\<close>

record browser =
  randomId :: "nat \<Rightarrow> string"
  createObjectURL :: "nat \<Rightarrow> string"

text \<open>\<open>String.prototype.split\<close> on a one-character separator.\<close>

fun split :: "char \<Rightarrow> string \<Rightarrow> string list" where
  "split c [] = [[]]"
| "split c (x # xs) =
     (if x = c then [] # split c xs
      else (case split c xs of
              [] \<Rightarrow> [[x]]
            | p # ps \<Rightarrow> (x # p) # ps))"

text \<open>Decimal digits of a natural number.\<close>

definition digit :: "nat \<Rightarrow> char" where
  "digit d = ''0123456789'' ! (d mod 10)"

fun show_nat :: "nat \<Rightarrow> string" where
  "show_nat n = (if n < 10 then [digit n] else show_nat (n div 10) @ [digit n])"

text \<open>
  \<open>(file.size / (1024 * 1024)).toFixed(2)\<close>. The quotient by a power of two is exact in
  binary floating point for every byte count below \<open>2 ^ 53\<close>, and \<open>toFixed(2)\<close> rounds the
  exact value to the nearest hundredth, the larger one at a tie: \<open>n\<close> is that number of
  hundredths.
\<close>

definition toFixed2_MB :: "nat \<Rightarrow> string" where
  "toFixed2_MB bytes =
     (let n = (200 * bytes + 1048576) div 2097152
      in show_nat (n div 100) @ ''.'' @ [digit (n mod 100 div 10), digit (n mod 10)])"

definition folderName_of :: "string \<Rightarrow> string" where
  "folderName_of path =
     (let pathParts = split CHR ''/'' path
      in if length pathParts > 1 then pathParts ! (length pathParts - 2)
         else ''Internal Storage'')"

definition isVideoType :: "jsfile \<Rightarrow> bool" where
  "isVideoType f = prefix ''video/'' (file_type f)"

definition mkVideo :: "browser \<Rightarrow> nat \<Rightarrow> jsfile \<Rightarrow> VideoFile" where
  "mkVideo b k f =
     \<lparr>id_v = randomId b k,
      name = file_name f,
      size_v = toFixed2_MB (file_size f) @ '' MB'',
      url = createObjectURL b k,
      type_v = file_type f,
      lastModified = file_lastModified f,
      folderName = folderName_of (webkitRelativePath f),
      relativePath = webkitRelativePath f\<rparr>"

definition newVideos :: "browser \<Rightarrow> jsfile list \<Rightarrow> VideoFile list" where
  "newVideos b filesArray =
     (let videoFiles = filter isVideoType filesArray
      in map (\<lambda>(k, f). mkVideo b k f) (enumerate 0 videoFiles))"

text \<open>\<open>e.target.files\<close> is \<open>FileList | null\<close>; on \<open>null\<close> the handler does nothing.\<close>

definition handleFolderSelect :: "browser \<Rightarrow> jsfile list option \<Rightarrow> app \<Rightarrow> app" where
  "handleFolderSelect b files s =
     (case files of
        None \<Rightarrow> s
      | Some filesArray \<Rightarrow> handleAddVideos (newVideos b filesArray) s)"

subsection \<open>Grouping by folder name (\<open>folders\<close>)\<close>

text \<open>
  \<open>group\<close> is an object literal \<open>{}\<close> used as a dictionary, so a property read
  \<open>group[k]\<close> that finds no own property continues in \<open>Object.prototype\<close>. The own
  properties are an association list; the names below are the properties every object
  inherits (ECMAScript, properties of the Object prototype object, with the legacy
  accessors of Annex B). Each inherited value is a function or an object: truthy, and
  without a \<open>push\<close> method.
\<close>

definition object_prototype_keys :: "string list" where
  "object_prototype_keys =
     [''constructor'', ''hasOwnProperty'', ''isPrototypeOf'', ''propertyIsEnumerable'',
      ''toLocaleString'', ''toString'', ''valueOf'', ''__proto__'',
      ''__defineGetter__'', ''__defineSetter__'', ''__lookupGetter__'', ''__lookupSetter__'']"

datatype js_error = TypeError

type_synonym group = "(string \<times> VideoFile list) list"

text \<open>
  The body of the \<open>forEach\<close> callback. An own property holds an array, which is truthy
  even when empty, and \<open>push\<close> appends to it. Without an own property, an inherited one
  makes \<open>!group[k]\<close> false, so no array is stored and the call of \<open>push\<close> on the
  inherited value throws; otherwise the read is \<open>undefined\<close> and a new array is stored
  under a new key, then pushed to.
\<close>

definition group_push :: "group \<Rightarrow> VideoFile \<Rightarrow> js_error + group" where
  "group_push g video =
     (case map_of g (folderName video) of
        Some vs \<Rightarrow> Inr (AList.update (folderName video) (vs @ [video]) g)
      | None \<Rightarrow>
          if folderName video \<in> set object_prototype_keys then Inl TypeError
          else Inr (AList.update (folderName video) ([] @ [video]) g))"

fun forEach_group :: "group \<Rightarrow> VideoFile list \<Rightarrow> js_error + group" where
  "forEach_group g [] = Inr g"
| "forEach_group g (video # rest) =
     (case group_push g video of
        Inl e \<Rightarrow> Inl e
      | Inr g' \<Rightarrow> forEach_group g' rest)"

definition folders :: "VideoFile list \<Rightarrow> js_error + group" where
  "folders vs = forEach_group [] vs"

subsection \<open>Choosing a folder and a video\<close>

text \<open>
  \<open>selectedFolderName\<close> is \<open>string | null\<close> and is tested for truthiness: the empty
  string counts as no selection.
\<close>

definition truthy_string :: "string option \<Rightarrow> bool" where
  "truthy_string x = (case x of None \<Rightarrow> False | Some str \<Rightarrow> str \<noteq> [])"

text \<open>The click handler of a video item: the position of the first entry with its id.\<close>

definition onClick_video :: "VideoFile list \<Rightarrow> VideoFile \<Rightarrow> int" where
  "onClick_video vs video = findIndex (\<lambda>v. id_v v = id_v video) vs"

subsection \<open>The two views together\<close>

text \<open>
  \<open>App\<close> renders the library while \<open>currentVideoIndex\<close> is \<open>null\<close> and the player
  otherwise, so the library's \<open>selectedFolderName\<close> lives only while no video is playing:
  it is \<open>null\<close> again when the library is mounted anew.
\<close>

record ui =
  app_st :: app
  selectedFolderName :: "string option"

definition ui_init :: ui where
  "ui_init = \<lparr>app_st = app_init, selectedFolderName = None\<rparr>"

datatype ui_event =
    FolderSelect "jsfile list option" browser
  | SelectFolder string
  | LibraryBack
  | ClickVideo nat
  | PlayerBack
  | PlayerNext
  | PlayerPrev

text \<open>
  The list a folder view shows: \<open>selectedFolderName ? folders[selectedFolderName] : []\<close>.
  \<open>None\<close> stands for a render that throws: in \<open>folders\<close>, or in \<open>filteredVideos.map\<close>
  when the selected name is not an own property of \<open>folders\<close>.
\<close>

definition filteredVideos :: "ui \<Rightarrow> VideoFile list option" where
  "filteredVideos s =
     (case folders (videos (app_st s)) of
        Inl e \<Rightarrow> None
      | Inr g \<Rightarrow>
          (case selectedFolderName s of
             None \<Rightarrow> Some []
           | Some n \<Rightarrow> if n = [] then Some [] else map_of g n))"

definition library_shown :: "ui \<Rightarrow> bool" where
  "library_shown s = (currentVideoIndex (app_st s) = None \<and> filteredVideos s \<noteq> None)"

text \<open>
  One user action. An action on a control that the current view does not render leaves
  the state as it is. The player's own conditions on its back, next and previous buttons
  are not modelled: these three actions are taken whenever the player is shown.
\<close>

fun ui_step :: "ui \<Rightarrow> ui_event \<Rightarrow> ui" where
  "ui_step s (FolderSelect files b) =
     (if library_shown s \<and> \<not> truthy_string (selectedFolderName s)
      then s\<lparr>app_st := handleFolderSelect b files (app_st s)\<rparr>
      else s)"
| "ui_step s (SelectFolder n) =
     (if library_shown s \<and> videos (app_st s) \<noteq> [] \<and> \<not> truthy_string (selectedFolderName s)
         \<and> (case folders (videos (app_st s)) of Inl e \<Rightarrow> False | Inr g \<Rightarrow> n \<in> fst ` set g)
      then s\<lparr>selectedFolderName := Some n\<rparr>
      else s)"
| "ui_step s LibraryBack =
     (if library_shown s \<and> truthy_string (selectedFolderName s)
      then s\<lparr>selectedFolderName := None\<rparr>
      else s)"
| "ui_step s (ClickVideo k) =
     (if library_shown s \<and> videos (app_st s) \<noteq> [] \<and> truthy_string (selectedFolderName s)
      then (case filteredVideos s of
              None \<Rightarrow> s
            | Some fv \<Rightarrow>
                if k < length fv
                then \<lparr>app_st = handlePlayVideo (onClick_video (videos (app_st s)) (fv ! k)) (app_st s),
                      selectedFolderName = None\<rparr>
                else s)
      else s)"
| "ui_step s PlayerBack =
     (if currentVideoIndex (app_st s) \<noteq> None
      then s\<lparr>app_st := handleBackToLibrary (app_st s)\<rparr> else s)"
| "ui_step s PlayerNext =
     (if currentVideoIndex (app_st s) \<noteq> None
      then s\<lparr>app_st := handleNextVideo (app_st s)\<rparr> else s)"
| "ui_step s PlayerPrev =
     (if currentVideoIndex (app_st s) \<noteq> None
      then s\<lparr>app_st := handlePrevVideo (app_st s)\<rparr> else s)"

definition ui_run :: "ui_event list \<Rightarrow> ui" where
  "ui_run evs = foldl ui_step ui_init evs"

text \<open>
  The identifiers a folder selection draws are fresh when they differ from each other
  and from every identifier already in the list.
\<close>

definition fresh_draws :: "browser \<Rightarrow> jsfile list \<Rightarrow> app \<Rightarrow> bool" where
  "fresh_draws b filesArray s =
     (let drawn = map (randomId b) [0 ..< length (filter isVideoType filesArray)]
      in distinct drawn \<and> (\<forall>d \<in> set drawn. d \<notin> set (map id_v (videos s))))"

definition event_fresh :: "ui \<Rightarrow> ui_event \<Rightarrow> bool" where
  "event_fresh s ev =
     (case ev of
        FolderSelect (Some filesArray) b \<Rightarrow> fresh_draws b filesArray (app_st s)
      | _ \<Rightarrow> True)"

fun draws_fresh :: "ui \<Rightarrow> ui_event list \<Rightarrow> bool" where
  "draws_fresh s [] = True"
| "draws_fresh s (ev # evs) = (event_fresh s ev \<and> draws_fresh (ui_step s ev) evs)"

section \<open>VideoPlayer.tsx: the player view\<close>

subsection \<open>The media element\<close>

text \<open>
  The properties of the \<open>video\<close> element that the player reads or writes.
\<close>

record media =
  el_paused :: bool
  el_src :: string
  el_currentTime :: number
  el_duration :: number
  el_playbackRate :: rat
  el_volume :: number

definition new_media :: media where
  "new_media =
     \<lparr>el_paused = True, el_src = [], el_currentTime = Fin 0, el_duration = NaN,
      el_playbackRate = 1, el_volume = Fin 1\<rparr>"

text \<open>
  What \<open>play()\<close> hands back: a promise that is fulfilled, a promise that is rejected, or
  \<open>undefined\<close> (browsers without play promises).
\<close>

datatype play_outcome = Fulfilled | Rejected | NoPromise

text \<open>
  The methods of the element are the browser's, not the program's. Of their behaviour
  this is what is assumed (HTML, media elements): \<open>pause()\<close> sets the paused flag;
  \<open>load()\<close> restarts resource selection, after which the element is paused at playback
  position 0 with no duration known; a \<open>play()\<close> that is not rejected clears the paused
  flag, and a rejected one leaves the element as it is.
\<close>

definition el_pause :: "media \<Rightarrow> media" where
  "el_pause m = m\<lparr>el_paused := True\<rparr>"

definition el_load :: "media \<Rightarrow> media" where
  "el_load m = m\<lparr>el_paused := True, el_currentTime := Fin 0, el_duration := NaN\<rparr>"

definition el_play :: "play_outcome \<Rightarrow> media \<Rightarrow> media" where
  "el_play out m = (case out of Rejected \<Rightarrow> m | _ \<Rightarrow> m\<lparr>el_paused := False\<rparr>)"

subsection \<open>Component state\<close>

text \<open>
  \<open>error\<close> is \<open>string | null\<close>; the one string the program stores there is the
  (non-empty) message literal of \<open>handleVideoError\<close>.
\<close>

datatype error_message = CannotPlayMessage

text \<open>
  The \<open>useState\<close> cells and the two refs. \<open>controlsTimeoutRef\<close> holds the pending
  inactivity timer, if any, as the pair of \<open>isPlaying\<close> and \<open>settings.isLocked\<close> that its
  callback has captured.
\<close>

record player =
  isPlaying :: bool
  progress :: number
  duration :: number
  currentTime :: number
  volume :: number
  brightness :: number
  showControls :: bool
  error :: "error_message option"
  settings :: PlayerSettings
  videoRef :: "media option"
  controlsTimeoutRef :: "(bool \<times> bool) option"

definition default_settings :: PlayerSettings where
  "default_settings = \<lparr>playbackSpeed = 1, aspectRatio = FIT, isLocked = False\<rparr>"

text \<open>
  The state of a newly mounted player, once its \<open>video\<close> element exists and before any
  effect has run.
\<close>

definition player_init :: player where
  "player_init =
     \<lparr>isPlaying = False, progress = Fin 0, duration = Fin 0, currentTime = Fin 0,
      volume = Fin 1, brightness = Fin 100, showControls = True, error = None,
      settings = default_settings, videoRef = Some new_media, controlsTimeoutRef = None\<rparr>"

subsection \<open>Handlers\<close>

text \<open>
  \<open>resetControlsTimer\<close> is memoised on \<open>isPlaying\<close> and \<open>settings.isLocked\<close>: the timer
  callback tests the values of the render in which the function was created. The first
  two arguments are those values.
\<close>

definition resetControlsTimer_from :: "bool \<Rightarrow> bool \<Rightarrow> player \<Rightarrow> player" where
  "resetControlsTimer_from playing locked s =
     s\<lparr>showControls := True, controlsTimeoutRef := Some (playing, locked)\<rparr>"

definition resetControlsTimer :: "player \<Rightarrow> player" where
  "resetControlsTimer s = resetControlsTimer_from (isPlaying s) (isLocked (settings s)) s"

text \<open>The timer callback, three seconds later.\<close>

definition controlsTimeout :: "player \<Rightarrow> player" where
  "controlsTimeout s =
     (case controlsTimeoutRef s of
        None \<Rightarrow> s
      | Some (playing, locked) \<Rightarrow>
          if playing \<and> \<not> locked
          then s\<lparr>showControls := False, controlsTimeoutRef := None\<rparr>
          else s\<lparr>controlsTimeoutRef := None\<rparr>)"

definition togglePlay :: "play_outcome \<Rightarrow> player \<Rightarrow> player" where
  "togglePlay out s =
     (if isLocked (settings s) \<or> error s \<noteq> None then s
      else (case videoRef s of
              None \<Rightarrow> s
            | Some m \<Rightarrow>
                if el_paused m
                then (case out of
                        Rejected \<Rightarrow> s\<lparr>videoRef := Some (el_play out m)\<rparr>
                      | _ \<Rightarrow> s\<lparr>videoRef := Some (el_play out m), isPlaying := True\<rparr>)
                else s\<lparr>videoRef := Some (el_pause m), isPlaying := False\<rparr>))"

definition handleProgress :: "player \<Rightarrow> player" where
  "handleProgress s =
     (case videoRef s of
        None \<Rightarrow> s
      | Some m \<Rightarrow>
          (let current = el_currentTime m; total = el_duration m
           in s\<lparr>currentTime := current,
                progress := num_mul (num_div current total) (Fin 100)\<rparr>))"

text \<open>
  Assigning a value that is not finite to \<open>currentTime\<close> throws a \<open>TypeError\<close>; the
  handler then ends before \<open>setProgress\<close>.
\<close>

definition handleSeek :: "number \<Rightarrow> player \<Rightarrow> js_error + player" where
  "handleSeek newProgress s =
     (if isLocked (settings s) then Inr s
      else (case videoRef s of
              None \<Rightarrow> Inr s
            | Some m \<Rightarrow>
                if truthy_number (el_duration m)
                then (let newTime = num_mul (num_div newProgress (Fin 100)) (el_duration m)
                      in (case newTime of
                            Fin t \<Rightarrow>
                              Inr (s\<lparr>videoRef := Some (m\<lparr>el_currentTime := newTime\<rparr>),
                                     progress := newProgress\<rparr>)
                          | _ \<Rightarrow> Inl TypeError))
                else Inr s))"

text \<open>The state after a handler has run: a handler that throws has set no state.\<close>

definition state_after :: "player \<Rightarrow> js_error + player \<Rightarrow> player" where
  "state_after s r = (case r of Inl e \<Rightarrow> s | Inr s' \<Rightarrow> s')"

definition aspect_order :: "AspectRatio list" where
  "aspect_order = [FIT, STRETCH, CROP, SIXTEEN_NINE, FOUR_THREE]"

definition aspect_nextIndex :: "AspectRatio \<Rightarrow> int" where
  "aspect_nextIndex a =
     (let currentIndex = indexOf aspect_order a
      in js_rem (currentIndex + 1) (int (length aspect_order)))"

definition changeAspectRatio :: "player \<Rightarrow> player" where
  "changeAspectRatio s =
     (let nextIndex = aspect_nextIndex (aspectRatio (settings s))
      in s\<lparr>settings := (settings s)\<lparr>aspectRatio := aspect_order ! nat nextIndex\<rparr>\<rparr>)"

definition speeds :: "rat list" where
  "speeds = [1 / 2, 1, 5 / 4, 3 / 2, 2]"

definition speed_nextIndex :: "rat \<Rightarrow> int" where
  "speed_nextIndex v =
     (let currentIndex = indexOf speeds v
      in js_rem (currentIndex + 1) (int (length speeds)))"

definition changeSpeed :: "player \<Rightarrow> player" where
  "changeSpeed s =
     (let nextIndex = speed_nextIndex (playbackSpeed (settings s));
          newSpeed = speeds ! nat nextIndex
      in s\<lparr>settings := (settings s)\<lparr>playbackSpeed := newSpeed\<rparr>,
           videoRef := map_option (\<lambda>m. m\<lparr>el_playbackRate := newSpeed\<rparr>) (videoRef s)\<rparr>)"

definition toggleLock :: "player \<Rightarrow> player" where
  "toggleLock s =
     s\<lparr>settings := (settings s)\<lparr>isLocked := \<not> isLocked (settings s)\<rparr>,
       showControls := True\<rparr>"

text \<open>
  The video load effect, with the settlement of the play promise folded in. The
  \<open>resetControlsTimer\<close> that the fulfilment callback calls is the one of the render in
  which the effect ran.
\<close>

definition videoLoadEffect :: "VideoFile \<Rightarrow> play_outcome \<Rightarrow> player \<Rightarrow> player" where
  "videoLoadEffect video out s =
     (let s1 = s\<lparr>error := None\<rparr>
      in (case videoRef s1 of
            None \<Rightarrow> s1
          | Some m \<Rightarrow>
              (let m' = el_play out (el_load ((el_pause m)\<lparr>el_src := url video\<rparr>));
                   s2 = s1\<lparr>videoRef := Some m'\<rparr>
               in (case out of
                     NoPromise \<Rightarrow> s2
                   | Fulfilled \<Rightarrow>
                       resetControlsTimer_from (isPlaying s) (isLocked (settings s))
                         (s2\<lparr>isPlaying := True\<rparr>)
                   | Rejected \<Rightarrow> s2\<lparr>isPlaying := False\<rparr>))))"

definition handleVideoError :: "player \<Rightarrow> player" where
  "handleVideoError s = s\<lparr>error := Some CannotPlayMessage, isPlaying := False\<rparr>"

definition onLoadedMetadata :: "player \<Rightarrow> player" where
  "onLoadedMetadata s =
     s\<lparr>duration :=
         (case videoRef s of
            None \<Rightarrow> Fin 0
          | Some m \<Rightarrow> if truthy_number (el_duration m) then el_duration m else Fin 0)\<rparr>"

definition onEnded :: "player \<Rightarrow> player" where
  "onEnded s = s\<lparr>isPlaying := False\<rparr>"

definition onMuteClick :: "player \<Rightarrow> player" where
  "onMuteClick s =
     (let newVol = (if volume s = Fin 0 then Fin 1 else Fin 0)
      in s\<lparr>volume := newVol,
           videoRef := map_option (\<lambda>m. m\<lparr>el_volume := newVol\<rparr>) (videoRef s)\<rparr>)"

definition onVolumeChange :: "number \<Rightarrow> player \<Rightarrow> player" where
  "onVolumeChange v s =
     s\<lparr>volume := v, videoRef := map_option (\<lambda>m. m\<lparr>el_volume := v\<rparr>) (videoRef s)\<rparr>"

definition onBrightnessChange :: "number \<Rightarrow> player \<Rightarrow> player" where
  "onBrightnessChange b s = s\<lparr>brightness := b\<rparr>"

subsection \<open>Reachable player states\<close>

text \<open>
  Everything that can happen to a mounted player: a handler or the load effect runs, the
  inactivity timer fires, or the browser changes the media element on its own
  (\<open>ElementChange\<close>: playback advances, metadata arrives). Events are taken in any order
  and whether or not the control that triggers them is on screen, which covers every
  order in which the browser can deliver them.
\<close>

datatype player_event =
    TogglePlay play_outcome
  | TimeUpdate
  | Seek number
  | ChangeAspectRatio
  | ChangeSpeed
  | ToggleLock
  | VideoLoad VideoFile play_outcome
  | VideoError
  | LoadedMetadata
  | Ended
  | ContainerClick
  | ControlsTimeout
  | MuteClick
  | VolumeChange number
  | BrightnessChange number
  | ElementChange media

fun player_step :: "player \<Rightarrow> player_event \<Rightarrow> player" where
  "player_step s (TogglePlay out) = togglePlay out s"
| "player_step s TimeUpdate = handleProgress s"
| "player_step s (Seek v) = state_after s (handleSeek v s)"
| "player_step s ChangeAspectRatio = changeAspectRatio s"
| "player_step s ChangeSpeed = changeSpeed s"
| "player_step s ToggleLock = toggleLock s"
| "player_step s (VideoLoad video out) = videoLoadEffect video out s"
| "player_step s VideoError = handleVideoError s"
| "player_step s LoadedMetadata = onLoadedMetadata s"
| "player_step s Ended = onEnded s"
| "player_step s ContainerClick = resetControlsTimer s"
| "player_step s ControlsTimeout = controlsTimeout s"
| "player_step s MuteClick = onMuteClick s"
| "player_step s (VolumeChange v) = onVolumeChange v s"
| "player_step s (BrightnessChange b) = onBrightnessChange b s"
| "player_step s (ElementChange m) = s\<lparr>videoRef := map_option (\<lambda>_. m) (videoRef s)\<rparr>"

definition player_run :: "player_event list \<Rightarrow> player" where
  "player_run evs = foldl player_step player_init evs"

subsection \<open>Which controls are on screen\<close>

text \<open>
  The controls of the overlay that change player state. In the JSX every one of them
  except the lock button sits under a \<open>!settings.isLocked &&\<close> condition: while the
  player is locked they are not part of the rendered tree, so no user action can reach
  their handlers.
\<close>

datatype control =
    SpeedButton
  | AspectButton
  | PlayButton play_outcome
  | SeekBar number
  | LockButton
  | MuteButton
  | VolumeSlider number
  | BrightnessSlider number

fun control_rendered :: "player \<Rightarrow> control \<Rightarrow> bool" where
  "control_rendered s LockButton = True"
| "control_rendered s c = (\<not> isLocked (settings s))"

text \<open>
  A click bubbles to the container, whose \<open>onClick\<close> is the \<open>resetControlsTimer\<close> of the
  current render, unless the button's own handler stops the propagation (the play
  button). A change of a range input runs its \<open>onChange\<close> handler only.
\<close>

fun control_handler :: "control \<Rightarrow> player \<Rightarrow> player" where
  "control_handler SpeedButton s =
     resetControlsTimer_from (isPlaying s) (isLocked (settings s)) (changeSpeed s)"
| "control_handler AspectButton s =
     resetControlsTimer_from (isPlaying s) (isLocked (settings s)) (changeAspectRatio s)"
| "control_handler (PlayButton out) s = togglePlay out s"
| "control_handler (SeekBar v) s = state_after s (handleSeek v s)"
| "control_handler LockButton s =
     resetControlsTimer_from (isPlaying s) (isLocked (settings s)) (toggleLock s)"
| "control_handler MuteButton s =
     resetControlsTimer_from (isPlaying s) (isLocked (settings s)) (onMuteClick s)"
| "control_handler (VolumeSlider v) s = onVolumeChange v s"
| "control_handler (BrightnessSlider b) s = onBrightnessChange b s"

definition user_action :: "control \<Rightarrow> player \<Rightarrow> player" where
  "user_action c s = (if control_rendered s c then control_handler c s else s)"

section \<open>Example inputs\<close>

definition sample_video :: VideoFile where
  "sample_video =
     \<lparr>id_v = ''k3j9x0q1z'', name = ''clip.mp4'', size_v = ''1.50 MB'',
      url = ''blob:clip'', type_v = ''video/mp4'', lastModified = 0,
      folderName = ''Movies'', relativePath = ''Movies/clip.mp4''\<rparr>"

text \<open>A list of one video, which is playing.\<close>

definition single_app :: app where
  "single_app = \<lparr>videos = [sample_video], currentVideoIndex = Some 0\<rparr>"

text \<open>
  A player thirty seconds into a two-minute video: the video has been bound, the browser
  has loaded it and played that far, and the metadata and time events have been handled.
\<close>

definition loaded_media :: media where
  "loaded_media =
     \<lparr>el_paused = False, el_src = ''blob:clip'', el_currentTime = Fin 30,
      el_duration = Fin 120, el_playbackRate = 1, el_volume = Fin 1\<rparr>"

definition watching_player :: player where
  "watching_player =
     player_run [VideoLoad sample_video Fulfilled, ElementChange loaded_media,
       LoadedMetadata, TimeUpdate]"

text \<open>The same player after the lock button has been pressed.\<close>

definition locked_player :: player where
  "locked_player = toggleLock watching_player"

text \<open>A player at speed 1.25 whose media element has reported an error.\<close>

definition failed_player :: player where
  "failed_player = handleVideoError (changeSpeed player_init)"

definition clip_a :: jsfile where
  "clip_a =
     \<lparr>file_name = ''a.mp4'', file_size = 1572864, file_type = ''video/mp4'',
      file_lastModified = 1700000000000, webkitRelativePath = ''Movies/a.mp4''\<rparr>"

definition notes_txt :: jsfile where
  "notes_txt =
     \<lparr>file_name = ''notes.txt'', file_size = 120, file_type = ''text/plain'',
      file_lastModified = 1700000000500, webkitRelativePath = ''Movies/notes.txt''\<rparr>"

definition clip_b :: jsfile where
  "clip_b =
     \<lparr>file_name = ''b.webm'', file_size = 123456789, file_type = ''video/webm'',
      file_lastModified = 1700000001000, webkitRelativePath = ''Movies/Trips/b.webm''\<rparr>"

definition clip_c :: jsfile where
  "clip_c =
     \<lparr>file_name = ''c.mp4'', file_size = 2048, file_type = ''video/mp4'',
      file_lastModified = 1700000002000, webkitRelativePath = ''constructor/c.mp4''\<rparr>"

text \<open>A browser whose random draws all differ.\<close>

definition varied_browser :: browser where
  "varied_browser =
     \<lparr>randomId = (\<lambda>k. if k = 0 then ''k3j9x0q1z'' else if k = 1 then ''p0o9i8u7y''
                       else ''m1n2b3v4c''),
      createObjectURL = (\<lambda>k. if k = 0 then ''blob:0'' else if k = 1 then ''blob:1''
                       else ''blob:2'')\<rparr>"

text \<open>
  A browser in which \<open>Math.random()\<close> returns 0.5 at every call:
  \<open>(0.5).toString(36)\<close> is \<open>"0.i"\<close>, and \<open>substr(2, 9)\<close> of it is \<open>"i"\<close>.
\<close>

definition repeating_browser :: browser where
  "repeating_browser =
     \<lparr>randomId = (\<lambda>k. ''i''),
      createObjectURL = (\<lambda>k. if k = 0 then ''blob:0'' else if k = 1 then ''blob:1''
                       else ''blob:2'')\<rparr>"

definition browse_events :: "ui_event list" where
  "browse_events =
     [FolderSelect (Some [clip_a, notes_txt, clip_b]) varied_browser, SelectFolder ''Trips'']"

definition play_events :: "ui_event list" where
  "play_events = browse_events @ [ClickVideo 0, PlayerPrev, PlayerNext, PlayerNext]"

definition collision_events :: "ui_event list" where
  "collision_events = [FolderSelect (Some [clip_a, clip_b]) repeating_browser]"


definition video_a :: VideoFile where
  "video_a =
     \<lparr>id_v = ''k3j9x0q1z'', name = ''a.mp4'', size_v = ''1.50 MB'', url = ''blob:0'',
      type_v = ''video/mp4'', lastModified = 1700000000000, folderName = ''Movies'',
      relativePath = ''Movies/a.mp4''\<rparr>"

definition video_b :: VideoFile where
  "video_b =
     \<lparr>id_v = ''p0o9i8u7y'', name = ''b.webm'', size_v = ''117.74 MB'', url = ''blob:1'',
      type_v = ''video/webm'', lastModified = 1700000001000, folderName = ''Trips'',
      relativePath = ''Movies/Trips/b.webm''\<rparr>"

section \<open>Navigation at the list boundaries\<close>

lemma handleNextVideo_bounds:
  "index_in_bounds s \<Longrightarrow> index_in_bounds (handleNextVideo s)"
  by (auto simp: index_in_bounds_def handleNextVideo_def split: option.splits)

lemma handlePrevVideo_bounds:
  "index_in_bounds s \<Longrightarrow> index_in_bounds (handlePrevVideo s)"
  by (auto simp: index_in_bounds_def handlePrevVideo_def split: option.splits)

text \<open>
  Claim C8. \<open>handleNextVideo\<close> at the last index of the list and \<open>handlePrevVideo\<close> at
  index 0 return the state they were given, and neither handler takes an index that is
  within the list to one that is outside it.
\<close>

theorem next_prev_boundary_noop:
  "(currentVideoIndex s = Some (int (length (videos s)) - 1) \<longrightarrow> handleNextVideo s = s) \<and>
   (currentVideoIndex s = Some 0 \<longrightarrow> handlePrevVideo s = s) \<and>
   (index_in_bounds s \<longrightarrow>
      index_in_bounds (handleNextVideo s) \<and> index_in_bounds (handlePrevVideo s))"
proof (intro conjI impI)
  assume "currentVideoIndex s = Some (int (length (videos s)) - 1)"
  then show "handleNextVideo s = s"
    by (simp add: handleNextVideo_def)
next
  assume "currentVideoIndex s = Some 0"
  then show "handlePrevVideo s = s"
    by (simp add: handlePrevVideo_def)
next
  assume "index_in_bounds s"
  then show "index_in_bounds (handleNextVideo s)"
    by (rule handleNextVideo_bounds)
next
  assume "index_in_bounds s"
  then show "index_in_bounds (handlePrevVideo s)"
    by (rule handlePrevVideo_bounds)
qed

theorem next_prev_boundary_noop_witness:
  "currentVideoIndex single_app = Some (int (length (videos single_app)) - 1) \<and>
   handleNextVideo single_app = single_app \<and>
   currentVideoIndex single_app = Some 0 \<and>
   handlePrevVideo single_app = single_app \<and>
   index_in_bounds single_app \<and>
   index_in_bounds (handleNextVideo single_app) \<and>
   index_in_bounds (handlePrevVideo single_app)"
proof -
  have last: "currentVideoIndex single_app = Some (int (length (videos single_app)) - 1)"
    by (simp add: single_app_def)
  have first: "currentVideoIndex single_app = Some 0"
    by (simp add: single_app_def)
  have inside: "index_in_bounds single_app"
    by (simp add: single_app_def index_in_bounds_def)
  from next_prev_boundary_noop [of single_app] last first inside show ?thesis
    by blast
qed

section \<open>Positions in a list\<close>

lemma findIndex_lower: "- 1 \<le> findIndex p xs"
  by (induction xs) (simp_all add: Let_def)

lemma findIndex_upper: "findIndex p xs < int (length xs)"
  by (induction xs) (simp_all add: Let_def)

lemma findIndex_found_iff: "0 \<le> findIndex p xs \<longleftrightarrow> (\<exists>x \<in> set xs. p x)"
  by (induction xs) (auto simp: Let_def)

lemma findIndex_holds: "0 \<le> findIndex p xs \<Longrightarrow> p (xs ! nat (findIndex p xs))"
proof (induction xs)
  case Nil
  then show ?case by simp
next
  case (Cons x xs)
  show ?case
  proof (cases "p x")
    case True
    then show ?thesis by simp
  next
    case False
    with Cons.prems have nonneg: "0 \<le> findIndex p xs"
      by (simp add: Let_def split: if_splits)
    with Cons.IH have "p (xs ! nat (findIndex p xs))" .
    with False nonneg show ?thesis
      by (simp add: Let_def nat_add_distrib)
  qed
qed

lemma findIndex_first: "j < length xs \<Longrightarrow> p (xs ! j) \<Longrightarrow> findIndex p xs \<le> int j"
proof (induction xs arbitrary: j)
  case Nil
  then show ?case by simp
next
  case (Cons x xs)
  show ?case
  proof (cases "p x")
    case True
    then show ?thesis by simp
  next
    case False
    with Cons.prems obtain j' where j: "j = Suc j'" "j' < length xs" "p (xs ! j')"
      by (cases j) auto
    with Cons.IH have "findIndex p xs \<le> int j'" by blast
    with False j show ?thesis
      by (simp add: Let_def)
  qed
qed

lemma findIndex_distinct_key:
  assumes "distinct (map f xs)" and "x \<in> set xs"
  shows "0 \<le> findIndex (\<lambda>v. f v = f x) xs \<and>
         findIndex (\<lambda>v. f v = f x) xs < int (length xs) \<and>
         xs ! nat (findIndex (\<lambda>v. f v = f x) xs) = x"
proof -
  let ?i = "findIndex (\<lambda>v. f v = f x) xs"
  from assms(2) have nonneg: "0 \<le> ?i"
    by (auto simp: findIndex_found_iff)
  have upper: "?i < int (length xs)"
    by (rule findIndex_upper)
  from nonneg have same: "f (xs ! nat ?i) = f x"
    by (rule findIndex_holds)
  from nonneg upper have "xs ! nat ?i \<in> set xs"
    by (intro nth_mem) (simp add: nat_less_iff)
  with assms same have "xs ! nat ?i = x"
    by (metis distinct_map inj_onD)
  with nonneg upper show ?thesis by simp
qed

section \<open>Worked examples of the library\<close>

lemma newVideos_example:
  "newVideos varied_browser [clip_a, notes_txt, clip_b] = [video_a, video_b]"
  by (simp add: newVideos_def mkVideo_def isVideoType_def clip_a_def notes_txt_def clip_b_def
      varied_browser_def video_a_def video_b_def folderName_of_def toFixed2_MB_def digit_def
      enumerate_eq_zip Let_def)

lemma folders_example:
  "folders [video_a, video_b] = Inr [(''Movies'', [video_a]), (''Trips'', [video_b])]"
  by (simp add: folders_def group_push_def object_prototype_keys_def video_a_def video_b_def)

lemma after_select:
  "ui_step ui_init (FolderSelect (Some [clip_a, notes_txt, clip_b]) varied_browser) =
     \<lparr>app_st = \<lparr>videos = [video_a, video_b], currentVideoIndex = None\<rparr>,
      selectedFolderName = None\<rparr>"
  by (simp add: ui_init_def app_init_def library_shown_def filteredVideos_def folders_def
      truthy_string_def handleFolderSelect_def handleAddVideos_def newVideos_example)

lemma after_folder:
  "ui_step \<lparr>app_st = \<lparr>videos = [video_a, video_b], currentVideoIndex = None\<rparr>,
            selectedFolderName = None\<rparr> (SelectFolder ''Trips'') =
     \<lparr>app_st = \<lparr>videos = [video_a, video_b], currentVideoIndex = None\<rparr>,
      selectedFolderName = Some ''Trips''\<rparr>"
  by (simp add: library_shown_def filteredVideos_def folders_example truthy_string_def)

lemma browse_state:
  "ui_run browse_events =
     \<lparr>app_st = \<lparr>videos = [video_a, video_b], currentVideoIndex = None\<rparr>,
      selectedFolderName = Some ''Trips''\<rparr>"
  by (simp only: ui_run_def browse_events_def foldl.simps after_select after_folder)

lemma browse_filtered:
  "filteredVideos (ui_run browse_events) = Some [video_b]"
  by (simp add: browse_state filteredVideos_def folders_example)

lemma browse_distinct:
  "distinct (map id_v (videos (app_st (ui_run browse_events))))"
  by (simp add: browse_state video_a_def video_b_def)

lemma click_example: "onClick_video [video_a, video_b] video_b = 1"
  by (simp add: onClick_video_def video_a_def video_b_def)

lemma after_click:
  "ui_step \<lparr>app_st = \<lparr>videos = [video_a, video_b], currentVideoIndex = None\<rparr>,
            selectedFolderName = Some ''Trips''\<rparr> (ClickVideo 0) =
     \<lparr>app_st = \<lparr>videos = [video_a, video_b], currentVideoIndex = Some 1\<rparr>,
      selectedFolderName = None\<rparr>"
  by (simp add: library_shown_def filteredVideos_def folders_example truthy_string_def
      handlePlayVideo_def click_example)

lemma after_navigation:
  "foldl ui_step \<lparr>app_st = \<lparr>videos = [video_a, video_b], currentVideoIndex = Some 1\<rparr>,
                  selectedFolderName = None\<rparr> [PlayerPrev, PlayerNext, PlayerNext] =
     \<lparr>app_st = \<lparr>videos = [video_a, video_b], currentVideoIndex = Some 1\<rparr>,
      selectedFolderName = None\<rparr>"
  by (simp add: handlePrevVideo_def handleNextVideo_def)

lemma play_state:
  "ui_run play_events =
     \<lparr>app_st = \<lparr>videos = [video_a, video_b], currentVideoIndex = Some 1\<rparr>,
      selectedFolderName = None\<rparr>"
proof -
  have "ui_run play_events =
      foldl ui_step (ui_step (ui_run browse_events) (ClickVideo 0))
        [PlayerPrev, PlayerNext, PlayerNext]"
    by (simp only: ui_run_def play_events_def foldl_append foldl.simps)
  then show ?thesis
    by (simp only: browse_state after_click after_navigation)
qed

lemma play_fresh: "draws_fresh ui_init play_events"
  by (simp add: play_events_def browse_events_def event_fresh_def fresh_draws_def
      ui_init_def app_init_def isVideoType_def clip_a_def notes_txt_def clip_b_def
      varied_browser_def upt_rec Let_def)

section \<open>Folder selection admits the video files\<close>

lemma map_enumerate_snd:
  "map (\<lambda>(k, f). F f) (enumerate n xs) = map F xs"
  by (induction xs arbitrary: n) simp_all

lemma map_enumerate_fst:
  "map (\<lambda>(k, f). G k) (enumerate n xs) = map G [n ..< n + length xs]"
proof -
  have "map (\<lambda>(k, f). G k) (enumerate n xs) = map G (map fst (enumerate n xs))"
    by (simp only: map_map comp_def case_prod_unfold)
  also have "map fst (enumerate n xs) = [n ..< n + length xs]"
    by (rule map_fst_enumerate)
  finally show ?thesis .
qed

lemma newVideos_ids:
  "map id_v (newVideos b fs) = map (randomId b) [0 ..< length (filter isVideoType fs)]"
  using map_enumerate_fst [of "randomId b" 0 "filter isVideoType fs"]
  by (simp add: newVideos_def mkVideo_def comp_def case_prod_unfold)

text \<open>
  Claim C5. After a folder selection the list of videos is the old list followed by one
  entry for each selected file whose type starts with \<open>video/\<close>, in the order of the
  selection, with the name, type, modification time and path of that file; files of any
  other type leave no entry.
\<close>

theorem folder_select_keeps_videos:
  "videos (handleFolderSelect b (Some filesArray) s) = videos s @ newVideos b filesArray \<and>
   map (\<lambda>v. (name v, type_v v, lastModified v, relativePath v)) (newVideos b filesArray) =
     map (\<lambda>f. (file_name f, file_type f, file_lastModified f, webkitRelativePath f))
       (filter (\<lambda>f. prefix ''video/'' (file_type f)) filesArray) \<and>
   length (newVideos b filesArray) =
     length (filter (\<lambda>f. prefix ''video/'' (file_type f)) filesArray)"
proof -
  have sel: "filter isVideoType filesArray = filter (\<lambda>f. prefix ''video/'' (file_type f)) filesArray"
    by (simp add: isVideoType_def [abs_def])
  have "map (\<lambda>v. (name v, type_v v, lastModified v, relativePath v)) (newVideos b filesArray) =
     map (\<lambda>(k, f). (file_name f, file_type f, file_lastModified f, webkitRelativePath f))
       (enumerate 0 (filter isVideoType filesArray))"
    by (simp add: newVideos_def mkVideo_def comp_def case_prod_unfold)
  also have "\<dots> = map (\<lambda>f. (file_name f, file_type f, file_lastModified f, webkitRelativePath f))
       (filter isVideoType filesArray)"
    by (rule map_enumerate_snd)
  finally have fields:
    "map (\<lambda>v. (name v, type_v v, lastModified v, relativePath v)) (newVideos b filesArray) =
     map (\<lambda>f. (file_name f, file_type f, file_lastModified f, webkitRelativePath f))
       (filter isVideoType filesArray)" .
  have len: "length (newVideos b filesArray) = length (filter isVideoType filesArray)"
    by (simp add: newVideos_def)
  from fields len show ?thesis
    by (simp add: handleFolderSelect_def handleAddVideos_def sel)
qed

theorem folder_select_keeps_videos_witness:
  "map name (videos (handleFolderSelect varied_browser (Some [clip_a, notes_txt, clip_b]) app_init)) =
     [''a.mp4'', ''b.webm'']"
proof -
  from folder_select_keeps_videos [of varied_browser "[clip_a, notes_txt, clip_b]" app_init]
  have "map (\<lambda>v. (name v, type_v v, lastModified v, relativePath v)) (videos (handleFolderSelect varied_browser (Some [clip_a, notes_txt, clip_b]) app_init)) =
     map (\<lambda>f. (file_name f, file_type f, file_lastModified f, webkitRelativePath f))
       (filter (\<lambda>f. prefix ''video/'' (file_type f)) [clip_a, notes_txt, clip_b])"
    by (simp add: app_init_def)
  then have "map (fst \<circ> (\<lambda>v. (name v, type_v v, lastModified v, relativePath v))) (videos (handleFolderSelect varied_browser (Some [clip_a, notes_txt, clip_b]) app_init)) =
     map (fst \<circ> (\<lambda>f. (file_name f, file_type f, file_lastModified f, webkitRelativePath f)))
       (filter (\<lambda>f. prefix ''video/'' (file_type f)) [clip_a, notes_txt, clip_b])"
    by (simp only: map_map [symmetric])
  then show ?thesis
    by (simp add: comp_def clip_a_def notes_txt_def clip_b_def)
qed

section \<open>Grouping by folder name\<close>

lemma group_push_map_of:
  assumes "group_push g v = Inr g'"
  shows "map_of g' =
    (map_of g)(folderName v \<mapsto>
       (case map_of g (folderName v) of None \<Rightarrow> [v] | Some ys \<Rightarrow> ys @ [v]))"
  using assms
  by (auto simp: group_push_def update_conv' split: option.splits if_splits)

lemma group_push_keys:
  assumes "group_push g v = Inr g'"
  shows "fst ` set g' = insert (folderName v) (fst ` set g)"
proof -
  from assms obtain ys where "g' = AList.update (folderName v) ys g"
    by (auto simp: group_push_def split: option.splits if_splits)
  then show ?thesis
    by (simp add: dom_update)
qed

lemma group_push_distinct:
  assumes "group_push g v = Inr g'" and "distinct (map fst g)"
  shows "distinct (map fst g')"
  using assms
  by (auto simp: group_push_def distinct_update split: option.splits if_splits)

lemma group_push_throws_iff:
  "(group_push g v = Inl TypeError) \<longleftrightarrow>
   (folderName v \<notin> fst ` set g \<and> folderName v \<in> set object_prototype_keys)"
proof (cases "map_of g (folderName v)")
  case None
  then show ?thesis
    by (simp add: group_push_def map_of_eq_None_iff [symmetric])
next
  case (Some ys)
  then have "folderName v \<in> fst ` set g"
    by (metis map_of_eq_None_iff option.distinct(1))
  with Some show ?thesis
    by (simp add: group_push_def)
qed

lemma forEach_group_map_of:
  "forEach_group g vs = Inr g' \<Longrightarrow>
   map_of g' n =
     (case map_of g n of
        Some ys \<Rightarrow> Some (ys @ filter (\<lambda>v. folderName v = n) vs)
      | None \<Rightarrow> if filter (\<lambda>v. folderName v = n) vs = [] then None
                else Some (filter (\<lambda>v. folderName v = n) vs))"
proof (induction vs arbitrary: g)
  case Nil
  then show ?case by (simp split: option.split)
next
  case (Cons v vs)
  from Cons.prems obtain g1 where push: "group_push g v = Inr g1"
    and rest: "forEach_group g1 vs = Inr g'"
    by (auto split: sum.splits)
  note ih = Cons.IH [OF rest]
  note m1 = group_push_map_of [OF push]
  show ?case
  proof (cases "folderName v = n")
    case True
    with ih m1 show ?thesis
      by (simp split: option.split)
  next
    case False
    with ih m1 show ?thesis
      by (simp split: option.split)
  qed
qed

lemma forEach_group_distinct:
  "forEach_group g vs = Inr g' \<Longrightarrow> distinct (map fst g) \<Longrightarrow> distinct (map fst g')"
proof (induction vs arbitrary: g)
  case Nil
  then show ?case by simp
next
  case (Cons v vs)
  from Cons.prems(1) obtain g1 where push: "group_push g v = Inr g1"
    and rest: "forEach_group g1 vs = Inr g'"
    by (auto split: sum.splits)
  from group_push_distinct [OF push Cons.prems(2)] Cons.IH [OF rest] show ?case
    by blast
qed

lemma forEach_group_throws_iff:
  "fst ` set g \<inter> set object_prototype_keys = {} \<Longrightarrow>
   (forEach_group g vs = Inl TypeError) \<longleftrightarrow>
   (\<exists>v \<in> set vs. folderName v \<in> set object_prototype_keys)"
proof (induction vs arbitrary: g)
  case Nil
  then show ?case by simp
next
  case (Cons v vs)
  show ?case
  proof (cases "group_push g v")
    case (Inl e)
    then have thrown: "group_push g v = Inl TypeError" by (cases e) simp
    then have "forEach_group g (v # vs) = Inl TypeError" by simp
    moreover from thrown have "folderName v \<in> set object_prototype_keys"
      by (simp add: group_push_throws_iff)
    ultimately show ?thesis by auto
  next
    case (Inr g1)
    have notproto: "folderName v \<notin> set object_prototype_keys"
    proof
      assume inherited: "folderName v \<in> set object_prototype_keys"
      with Cons.prems have "folderName v \<notin> fst ` set g" by blast
      with inherited have "group_push g v = Inl TypeError"
        by (simp add: group_push_throws_iff)
      with Inr show False by simp
    qed
    with Cons.prems group_push_keys [OF Inr]
    have "fst ` set g1 \<inter> set object_prototype_keys = {}" by auto
    from Cons.IH [OF this] Inr notproto show ?thesis by simp
  qed
qed

lemma folders_throws_iff:
  "(folders vs = Inl TypeError) \<longleftrightarrow> (\<exists>v \<in> set vs. folderName v \<in> set object_prototype_keys)"
  unfolding folders_def by (rule forEach_group_throws_iff) simp

lemma folders_partition:
  assumes "folders vs = Inr g"
  shows "distinct (map fst g) \<and>
         (\<forall>n xs. (n, xs) \<in> set g \<longleftrightarrow>
            xs = filter (\<lambda>v. folderName v = n) vs \<and> xs \<noteq> [])"
proof -
  from assms have run: "forEach_group [] vs = Inr g"
    by (simp add: folders_def)
  from forEach_group_distinct [OF run] have d: "distinct (map fst g)" by simp
  have "\<And>n xs. (n, xs) \<in> set g \<longleftrightarrow>
            xs = filter (\<lambda>v. folderName v = n) vs \<and> xs \<noteq> []"
  proof -
    fix n xs
    have "(n, xs) \<in> set g \<longleftrightarrow> map_of g n = Some xs"
      using d by simp
    also have "\<dots> \<longleftrightarrow> xs = filter (\<lambda>v. folderName v = n) vs \<and> xs \<noteq> []"
      using forEach_group_map_of [OF run, of n] by auto
    finally show "(n, xs) \<in> set g \<longleftrightarrow>
            xs = filter (\<lambda>v. folderName v = n) vs \<and> xs \<noteq> []" .
  qed
  with d show ?thesis by blast
qed

lemma folders_member:
  assumes "folders vs = Inr g" and "map_of g n = Some xs"
  shows "set xs \<subseteq> set vs"
proof -
  from assms(2) have "(n, xs) \<in> set g" by (rule map_of_SomeD)
  with folders_partition [OF assms(1)] have "xs = filter (\<lambda>v. folderName v = n) vs"
    by blast
  then show ?thesis by auto
qed

text \<open>
  Claim C6 fails on a folder whose name is a property of \<open>Object.prototype\<close>. A video
  file selected from a directory called \<open>constructor\<close> gets that folder name, and
  grouping the resulting list throws a \<open>TypeError\<close> instead of producing a group. By
  \<open>folders_throws_iff\<close> these names are the only inputs on which grouping fails, and by
  \<open>folders_partition\<close> every other list is partitioned exactly.
\<close>

theorem folders_inherited_key_throws:
  "folderName_of (webkitRelativePath clip_c) = ''constructor'' \<and>
   folders (newVideos varied_browser [clip_c]) = Inl TypeError"
  by (simp add: folders_def group_push_def object_prototype_keys_def newVideos_def
      mkVideo_def isVideoType_def clip_c_def folderName_of_def enumerate_eq_zip)

section \<open>Selecting a video in a folder view\<close>

lemma filteredVideos_subset:
  assumes "filteredVideos s = Some fv"
  shows "set fv \<subseteq> set (videos (app_st s))"
proof (cases "folders (videos (app_st s))")
  case (Inl e)
  with assms show ?thesis by (simp add: filteredVideos_def)
next
  case (Inr g)
  show ?thesis
  proof (cases "selectedFolderName s")
    case None
    with Inr assms show ?thesis by (simp add: filteredVideos_def)
  next
    case (Some n)
    show ?thesis
    proof (cases "n = []")
      case True
      with Some Inr assms show ?thesis by (simp add: filteredVideos_def)
    next
      case False
      with Some Inr assms have "map_of g n = Some fv"
        by (simp add: filteredVideos_def)
      with Inr show ?thesis by (rule folders_member)
    qed
  qed
qed

text \<open>
  Claim C7. When the identifiers in the list are distinct, the click handler of the
  \<open>k\<close>-th item of a folder view signals an index that is within the list and at which
  the list holds that very entry; it is the only position of the entry in the list.
\<close>

theorem click_signals_position:
  assumes "distinct (map id_v (videos (app_st s)))"
    and "filteredVideos s = Some fv"
    and "k < length fv"
  shows "0 \<le> onClick_video (videos (app_st s)) (fv ! k) \<and>
         onClick_video (videos (app_st s)) (fv ! k) < int (length (videos (app_st s))) \<and>
         videos (app_st s) ! nat (onClick_video (videos (app_st s)) (fv ! k)) = fv ! k \<and>
         (\<forall>j < length (videos (app_st s)). videos (app_st s) ! j = fv ! k \<longrightarrow>
            int j = onClick_video (videos (app_st s)) (fv ! k))"
proof -
  let ?vs = "videos (app_st s)"
  let ?i = "onClick_video ?vs (fv ! k)"
  from assms(2,3) have mem: "fv ! k \<in> set ?vs"
    using filteredVideos_subset nth_mem by blast
  from findIndex_distinct_key [OF assms(1) mem]
  have pos: "0 \<le> ?i \<and> ?i < int (length ?vs) \<and> ?vs ! nat ?i = fv ! k"
    by (simp add: onClick_video_def)
  from assms(1) have d: "distinct ?vs"
    by (simp add: distinct_map)
  have "\<forall>j < length ?vs. ?vs ! j = fv ! k \<longrightarrow> int j = ?i"
  proof (intro allI impI)
    fix j
    assume j: "j < length ?vs" and at: "?vs ! j = fv ! k"
    from pos have "nat ?i < length ?vs" by (simp add: nat_less_iff)
    with d j at pos have "j = nat ?i"
      by (metis nth_eq_iff_index_eq)
    with pos show "int j = ?i" by simp
  qed
  with pos show ?thesis by blast
qed

theorem click_signals_position_witness:
  "distinct (map id_v (videos (app_st (ui_run browse_events)))) \<and>
   filteredVideos (ui_run browse_events) = Some [video_b] \<and>
   0 < length [video_b] \<and>
   onClick_video (videos (app_st (ui_run browse_events))) ([video_b] ! 0) = 1 \<and>
   videos (app_st (ui_run browse_events)) ! 1 = video_b"
proof -
  note t = click_signals_position [OF browse_distinct browse_filtered, of 0]
  have one: "onClick_video (videos (app_st (ui_run browse_events))) ([video_b] ! 0) = 1"
    by (simp add: browse_state onClick_video_def video_a_def video_b_def)
  from t one browse_distinct browse_filtered show ?thesis
    by simp
qed

section \<open>Reachable states of the root controller\<close>

lemma handleFolderSelect_bounds:
  "index_in_bounds s \<Longrightarrow> index_in_bounds (handleFolderSelect b files s)"
  by (auto simp: index_in_bounds_def handleFolderSelect_def handleAddVideos_def
      split: option.splits)

lemma click_bounds:
  assumes "filteredVideos s = Some fv" and "k < length fv"
  shows "index_in_bounds (handlePlayVideo (onClick_video (videos (app_st s)) (fv ! k)) (app_st s))"
proof -
  from assms have "fv ! k \<in> set (videos (app_st s))"
    using filteredVideos_subset nth_mem by blast
  then have "0 \<le> onClick_video (videos (app_st s)) (fv ! k)"
    unfolding onClick_video_def findIndex_found_iff by blast
  moreover have "onClick_video (videos (app_st s)) (fv ! k) < int (length (videos (app_st s)))"
    unfolding onClick_video_def by (rule findIndex_upper)
  ultimately show ?thesis
    by (simp add: index_in_bounds_def handlePlayVideo_def)
qed

lemma ui_step_bounds:
  assumes "index_in_bounds (app_st s)"
  shows "index_in_bounds (app_st (ui_step s ev))"
proof (cases ev)
  case (FolderSelect files b)
  with assms show ?thesis by (simp add: handleFolderSelect_bounds)
next
  case (SelectFolder n)
  with assms show ?thesis by simp
next
  case LibraryBack
  with assms show ?thesis by simp
next
  case (ClickVideo k)
  with assms show ?thesis
    by (simp add: click_bounds split: option.split)
next
  case PlayerBack
  with assms show ?thesis
    by (simp add: handleBackToLibrary_def index_in_bounds_def)
next
  case PlayerNext
  with assms show ?thesis by (simp add: handleNextVideo_bounds)
next
  case PlayerPrev
  with assms show ?thesis by (simp add: handlePrevVideo_bounds)
qed

lemma foldl_ui_step_bounds:
  "index_in_bounds (app_st s) \<Longrightarrow> index_in_bounds (app_st (foldl ui_step s evs))"
  by (induction evs arbitrary: s) (simp_all add: ui_step_bounds)

lemma ui_step_videos:
  "videos (app_st (ui_step s ev)) =
     (case ev of
        FolderSelect (Some filesArray) b \<Rightarrow>
          if library_shown s \<and> \<not> truthy_string (selectedFolderName s)
          then videos (app_st s) @ newVideos b filesArray else videos (app_st s)
      | _ \<Rightarrow> videos (app_st s))"
  by (cases ev)
     (simp_all add: handleFolderSelect_def handleAddVideos_def handlePlayVideo_def
        handleBackToLibrary_def handleNextVideo_def handlePrevVideo_def
        split: option.split)

lemma fresh_draws_distinct:
  assumes "distinct (map id_v (videos s))" and "fresh_draws b filesArray s"
  shows "distinct (map id_v (videos s @ newVideos b filesArray))"
proof -
  from assms(2) have new: "distinct (map id_v (newVideos b filesArray))"
    by (simp add: fresh_draws_def newVideos_ids Let_def)
  from assms(2)
  have "\<forall>d \<in> set (map id_v (newVideos b filesArray)). d \<notin> set (map id_v (videos s))"
    by (simp only: fresh_draws_def newVideos_ids Let_def) blast
  then have "set (map id_v (videos s)) \<inter> set (map id_v (newVideos b filesArray)) = {}"
    by blast
  with assms(1) new show ?thesis
    by (simp only: map_append distinct_append)
qed

lemma ui_step_distinct:
  assumes "distinct (map id_v (videos (app_st s)))" and "event_fresh s ev"
  shows "distinct (map id_v (videos (app_st (ui_step s ev))))"
proof (cases "\<exists>filesArray b. ev = FolderSelect (Some filesArray) b")
  case True
  then obtain filesArray b where ev: "ev = FolderSelect (Some filesArray) b" by blast
  with assms(2) have "fresh_draws b filesArray (app_st s)"
    by (simp add: event_fresh_def)
  from fresh_draws_distinct [OF assms(1) this] assms(1) ev show ?thesis
    by (simp add: ui_step_videos del: ui_step.simps)
next
  case False
  then have "videos (app_st (ui_step s ev)) = videos (app_st s)"
    by (simp add: ui_step_videos del: ui_step.simps split: ui_event.split option.split)
  with assms(1) show ?thesis by simp
qed

lemma foldl_ui_step_distinct:
  "draws_fresh s evs \<Longrightarrow> distinct (map id_v (videos (app_st s))) \<Longrightarrow>
   distinct (map id_v (videos (app_st (foldl ui_step s evs))))"
  by (induction evs arbitrary: s) (simp_all add: ui_step_distinct)

text \<open>
  Claim C9, as stated, fails: identifiers are random draws and nothing compares them.
  When \<open>Math.random()\<close> returns the same value for two files of one selection, the list
  holds two entries with the same identifier.
\<close>

theorem duplicate_ids_counterexample:
  "\<not> distinct (map id_v (videos (app_st (ui_run collision_events))))"
  by (simp add: ui_run_def collision_events_def ui_init_def app_init_def library_shown_def
      filteredVideos_def folders_def truthy_string_def handleFolderSelect_def
      handleAddVideos_def newVideos_def mkVideo_def isVideoType_def clip_a_def clip_b_def
      repeating_browser_def enumerate_eq_zip)

text \<open>
  Claim C9, amended. After any sequence of user actions from the initial state the
  current index, if set, is within the bounds of the list; and the identifiers in the
  list are distinct provided every folder selection drew identifiers that differ from
  each other and from those already in the list.
\<close>

theorem reachable_root_states:
  "index_in_bounds (app_st (ui_run evs)) \<and>
   (draws_fresh ui_init evs \<longrightarrow> distinct (map id_v (videos (app_st (ui_run evs)))))"
proof
  show "index_in_bounds (app_st (ui_run evs))"
    unfolding ui_run_def
    by (rule foldl_ui_step_bounds) (simp add: ui_init_def app_init_def index_in_bounds_def)
next
  show "draws_fresh ui_init evs \<longrightarrow> distinct (map id_v (videos (app_st (ui_run evs))))"
    unfolding ui_run_def
    by (auto intro: foldl_ui_step_distinct simp: ui_init_def app_init_def)
qed

theorem reachable_root_states_witness:
  "draws_fresh ui_init play_events \<and>
   index_in_bounds (app_st (ui_run play_events)) \<and>
   distinct (map id_v (videos (app_st (ui_run play_events)))) \<and>
   currentVideoIndex (app_st (ui_run play_events)) = Some 1 \<and>
   length (videos (app_st (ui_run play_events))) = 2"
  using reachable_root_states [of play_events] play_fresh
  by (simp add: play_state)

section \<open>Cycling aspect ratio and speed\<close>

lemma aspect_nextIndex_cases:
  "aspect_nextIndex FIT = 1" "aspect_nextIndex STRETCH = 2" "aspect_nextIndex CROP = 3"
  "aspect_nextIndex SIXTEEN_NINE = 4" "aspect_nextIndex FOUR_THREE = 0"
  by (simp_all add: aspect_nextIndex_def aspect_order_def indexOf_def js_rem_def)

lemma speed_nextIndex_cases:
  "speed_nextIndex (1 / 2) = 1" "speed_nextIndex 1 = 2" "speed_nextIndex (5 / 4) = 3"
  "speed_nextIndex (3 / 2) = 4" "speed_nextIndex 2 = 0"
  by (simp_all add: speed_nextIndex_def speeds_def indexOf_def js_rem_def)

text \<open>A speed that is not in the list has \<open>indexOf\<close> -1, and the next index is 0.\<close>

lemma speed_nextIndex_other:
  "v \<notin> set speeds \<Longrightarrow> speed_nextIndex v = 0"
  by (simp add: speed_nextIndex_def speeds_def indexOf_def js_rem_def)

lemma aspect_nextIndex_range:
  "0 \<le> aspect_nextIndex a \<and> aspect_nextIndex a < int (length aspect_order)"
  by (cases a) (simp_all add: aspect_nextIndex_cases, simp_all add: aspect_order_def)

lemma speed_nextIndex_range_listed:
  "\<forall>v \<in> set speeds. 0 \<le> speed_nextIndex v \<and> speed_nextIndex v < int (length speeds)"
  by (simp add: speeds_def speed_nextIndex_cases)

lemma speed_nextIndex_range:
  "0 \<le> speed_nextIndex v \<and> speed_nextIndex v < int (length speeds)"
proof (cases "v \<in> set speeds")
  case True
  then show ?thesis
    using speed_nextIndex_range_listed by blast
next
  case False
  then show ?thesis
    by (simp add: speed_nextIndex_other) (simp add: speeds_def)
qed

lemma changeAspectRatio_aspect:
  "aspectRatio (settings (changeAspectRatio s)) =
     aspect_order ! nat (aspect_nextIndex (aspectRatio (settings s)))"
  by (simp add: changeAspectRatio_def)

lemma changeSpeed_speed:
  "playbackSpeed (settings (changeSpeed s)) =
     speeds ! nat (speed_nextIndex (playbackSpeed (settings s)))"
  by (simp add: changeSpeed_def Let_def)

lemma next_speed_in_list:
  "speeds ! nat (speed_nextIndex v) \<in> set speeds"
  using speed_nextIndex_range [of v] by (intro nth_mem) (simp add: nat_less_iff)

lemma next_aspect_step:
  assumes "i < length aspect_order"
  shows "aspect_order ! nat (aspect_nextIndex (aspect_order ! i)) =
     aspect_order ! ((i + 1) mod length aspect_order)"
proof -
  from assms have "i \<in> {0, 1, 2, 3, 4}"
    by (auto simp: aspect_order_def)
  then show ?thesis
    by (auto simp: aspect_order_def aspect_nextIndex_cases)
qed

lemma next_speed_step:
  assumes "i < length speeds"
  shows "speeds ! nat (speed_nextIndex (speeds ! i)) = speeds ! ((i + 1) mod length speeds)"
proof -
  from assms have "i \<in> {0, 1, 2, 3, 4}"
    by (auto simp: speeds_def)
  then show ?thesis
    by (auto simp: speeds_def speed_nextIndex_cases)
qed

lemma aspect_five:
  "aspectRatio (settings ((changeAspectRatio ^^ 5) s)) = aspectRatio (settings s)"
  by (cases "aspectRatio (settings s)")
     (simp_all add: eval_nat_numeral changeAspectRatio_aspect aspect_nextIndex_cases
        aspect_order_def)

lemma speed_five_listed:
  "\<forall>v \<in> set speeds.
     speeds ! nat (speed_nextIndex (speeds ! nat (speed_nextIndex (speeds ! nat (speed_nextIndex
       (speeds ! nat (speed_nextIndex (speeds ! nat (speed_nextIndex v))))))))) = v"
  by (simp add: speeds_def speed_nextIndex_cases)

lemma speed_five:
  "playbackSpeed (settings s) \<in> set speeds \<Longrightarrow>
   playbackSpeed (settings ((changeSpeed ^^ 5) s)) = playbackSpeed (settings s)"
  using speed_five_listed
  by (simp add: eval_nat_numeral changeSpeed_speed)

text \<open>
  Claim C4. Five applications of \<open>changeAspectRatio\<close> give back the aspect ratio they
  started from, whatever it was; five applications of \<open>changeSpeed\<close> give back the
  starting speed when it is one of the listed speeds. One application moves from
  position \<open>i\<close> of the list to position \<open>i + 1\<close>, and from the last position to the
  first.
\<close>

theorem cycle_five_returns:
  "aspectRatio (settings ((changeAspectRatio ^^ 5) s)) = aspectRatio (settings s) \<and>
   (playbackSpeed (settings s) \<in> set speeds \<longrightarrow>
      playbackSpeed (settings ((changeSpeed ^^ 5) s)) = playbackSpeed (settings s)) \<and>
   (\<forall>i < length aspect_order. aspectRatio (settings s) = aspect_order ! i \<longrightarrow>
      aspectRatio (settings (changeAspectRatio s)) =
        aspect_order ! ((i + 1) mod length aspect_order)) \<and>
   (\<forall>i < length speeds. playbackSpeed (settings s) = speeds ! i \<longrightarrow>
      playbackSpeed (settings (changeSpeed s)) = speeds ! ((i + 1) mod length speeds))"
proof (intro conjI allI impI)
  show "aspectRatio (settings ((changeAspectRatio ^^ 5) s)) = aspectRatio (settings s)"
    by (rule aspect_five)
next
  assume "playbackSpeed (settings s) \<in> set speeds"
  then show "playbackSpeed (settings ((changeSpeed ^^ 5) s)) = playbackSpeed (settings s)"
    by (rule speed_five)
next
  fix i
  assume "i < length aspect_order" and "aspectRatio (settings s) = aspect_order ! i"
  then show "aspectRatio (settings (changeAspectRatio s)) =
      aspect_order ! ((i + 1) mod length aspect_order)"
    by (simp add: changeAspectRatio_aspect next_aspect_step)
next
  fix i
  assume "i < length speeds" and "playbackSpeed (settings s) = speeds ! i"
  then show "playbackSpeed (settings (changeSpeed s)) = speeds ! ((i + 1) mod length speeds)"
    by (simp add: changeSpeed_speed next_speed_step)
qed

theorem cycle_five_returns_witness:
  "playbackSpeed (settings failed_player) \<in> set speeds \<and>
   playbackSpeed (settings ((changeSpeed ^^ 5) failed_player)) = 5 / 4 \<and>
   aspectRatio (settings ((changeAspectRatio ^^ 5) failed_player)) = FIT \<and>
   0 < length aspect_order \<and> aspectRatio (settings failed_player) = aspect_order ! 0 \<and>
   aspectRatio (settings (changeAspectRatio failed_player)) = STRETCH \<and>
   2 < length speeds \<and> playbackSpeed (settings failed_player) = speeds ! 2 \<and>
   playbackSpeed (settings (changeSpeed failed_player)) = 3 / 2"
proof -
  have st: "settings failed_player = \<lparr>playbackSpeed = 5 / 4, aspectRatio = FIT, isLocked = False\<rparr>"
    by (simp add: failed_player_def handleVideoError_def changeSpeed_def player_init_def
        default_settings_def Let_def speed_nextIndex_cases speeds_def)
  have listed: "playbackSpeed (settings failed_player) \<in> set speeds"
    by (simp add: st speeds_def)
  have a0: "0 < length aspect_order \<and> aspectRatio (settings failed_player) = aspect_order ! 0"
    by (simp add: st aspect_order_def)
  have s2: "2 < length speeds \<and> playbackSpeed (settings failed_player) = speeds ! 2"
    by (simp add: st speeds_def)
  note c = cycle_five_returns [of failed_player]
  from c listed have five_speed:
    "playbackSpeed (settings ((changeSpeed ^^ 5) failed_player)) = 5 / 4"
    by (simp add: st)
  from c have five_aspect: "aspectRatio (settings ((changeAspectRatio ^^ 5) failed_player)) = FIT"
    by (simp add: st)
  from c a0 have "aspectRatio (settings (changeAspectRatio failed_player)) =
      aspect_order ! ((0 + 1) mod length aspect_order)"
    by blast
  then have one_aspect: "aspectRatio (settings (changeAspectRatio failed_player)) = STRETCH"
    by (simp add: aspect_order_def)
  from c s2 have "playbackSpeed (settings (changeSpeed failed_player)) =
      speeds ! ((2 + 1) mod length speeds)"
    by blast
  then have one_speed: "playbackSpeed (settings (changeSpeed failed_player)) = 3 / 2"
    by (simp add: speeds_def)
  from listed five_speed five_aspect a0 one_aspect s2 one_speed show ?thesis
    by blast
qed

section \<open>Settings stay within the two lists\<close>

lemma player_step_speed:
  "playbackSpeed (settings (player_step s ev)) =
     (if ev = ChangeSpeed then speeds ! nat (speed_nextIndex (playbackSpeed (settings s)))
      else playbackSpeed (settings s))"
  by (cases ev)
     (simp_all add: togglePlay_def handleProgress_def handleSeek_def changeAspectRatio_def
        changeSpeed_def toggleLock_def videoLoadEffect_def handleVideoError_def
        onLoadedMetadata_def onEnded_def resetControlsTimer_def resetControlsTimer_from_def
        controlsTimeout_def onMuteClick_def onVolumeChange_def onBrightnessChange_def
        state_after_def Let_def
        split: option.split play_outcome.split number.split)

lemma player_step_speed_listed:
  "playbackSpeed (settings s) \<in> set speeds \<Longrightarrow>
   playbackSpeed (settings (player_step s ev)) \<in> set speeds"
  by (simp add: player_step_speed next_speed_in_list)

lemma foldl_player_step_speed_listed:
  "playbackSpeed (settings s) \<in> set speeds \<Longrightarrow>
   playbackSpeed (settings (foldl player_step s evs)) \<in> set speeds"
  by (induction evs arbitrary: s) (simp_all add: player_step_speed_listed)

lemma player_run_speed_listed:
  "playbackSpeed (settings (player_run evs)) \<in> set speeds"
  unfolding player_run_def
  by (rule foldl_player_step_speed_listed)
     (simp add: player_init_def default_settings_def speeds_def)

lemma aspect_order_complete: "a \<in> set aspect_order"
  by (cases a) (simp_all add: aspect_order_def)

text \<open>
  Claim C10. In the state after any sequence of player events from the initial state, the
  playback speed is an element of the list of speeds and the aspect ratio an element of
  the list of modes; the index that the next \<open>changeSpeed\<close> or \<open>changeAspectRatio\<close> would
  read from its list is a position of that list.
\<close>

theorem settings_stay_in_lists:
  "playbackSpeed (settings (player_run evs)) \<in> set speeds \<and>
   aspectRatio (settings (player_run evs)) \<in> set aspect_order \<and>
   0 \<le> speed_nextIndex (playbackSpeed (settings (player_run evs))) \<and>
   speed_nextIndex (playbackSpeed (settings (player_run evs))) < int (length speeds) \<and>
   0 \<le> aspect_nextIndex (aspectRatio (settings (player_run evs))) \<and>
   aspect_nextIndex (aspectRatio (settings (player_run evs))) < int (length aspect_order)"
  using player_run_speed_listed [of evs] aspect_order_complete
    speed_nextIndex_range aspect_nextIndex_range
  by blast

theorem settings_stay_in_lists_witness:
  "playbackSpeed (settings (player_run [ChangeSpeed, ToggleLock, ChangeSpeed])) = 3 / 2 \<and>
   playbackSpeed (settings (player_run [ChangeSpeed, ToggleLock, ChangeSpeed])) \<in> set speeds \<and>
   speed_nextIndex (playbackSpeed (settings (player_run [ChangeSpeed, ToggleLock, ChangeSpeed]))) = 4"
proof -
  have run: "playbackSpeed (settings (player_run [ChangeSpeed, ToggleLock, ChangeSpeed])) = 3 / 2"
    by (simp add: player_run_def player_init_def default_settings_def changeSpeed_def
        toggleLock_def Let_def speed_nextIndex_cases speeds_def)
  from settings_stay_in_lists [of "[ChangeSpeed, ToggleLock, ChangeSpeed]"]
  have listed: "playbackSpeed (settings (player_run [ChangeSpeed, ToggleLock, ChangeSpeed]))
      \<in> set speeds"
    by blast
  have idx: "speed_nextIndex
      (playbackSpeed (settings (player_run [ChangeSpeed, ToggleLock, ChangeSpeed]))) = 4"
    by (simp only: run speed_nextIndex_cases)
  from run listed idx show ?thesis
    by blast
qed

section \<open>The lock\<close>

lemma watching_player_state:
  "watching_player =
     \<lparr>isPlaying = True, progress = Fin 25, duration = Fin 120, currentTime = Fin 30,
      volume = Fin 1, brightness = Fin 100, showControls = True, error = None,
      settings = default_settings, videoRef = Some loaded_media,
      controlsTimeoutRef = Some (False, False)\<rparr>"
  by (simp add: watching_player_def player_run_def player_init_def videoLoadEffect_def
      resetControlsTimer_from_def onLoadedMetadata_def handleProgress_def
      truthy_number_def loaded_media_def default_settings_def Let_def)

lemma locked_player_state:
  "locked_player =
     \<lparr>isPlaying = True, progress = Fin 25, duration = Fin 120, currentTime = Fin 30,
      volume = Fin 1, brightness = Fin 100, showControls = True, error = None,
      settings = \<lparr>playbackSpeed = 1, aspectRatio = FIT, isLocked = True\<rparr>,
      videoRef = Some loaded_media, controlsTimeoutRef = Some (False, False)\<rparr>"
  by (simp add: locked_player_def watching_player_state toggleLock_def default_settings_def)

text \<open>
  On the unlocked player each of the three controls changes the state: the seek bar
  moves the element to second 60, the two buttons advance the aspect ratio and the speed.
\<close>

lemma unlocked_controls_act:
  "handleSeek (Fin 50) watching_player =
     Inr (watching_player\<lparr>videoRef := Some (loaded_media\<lparr>el_currentTime := Fin 60\<rparr>),
                           progress := Fin 50\<rparr>) \<and>
   progress (user_action (SeekBar (Fin 50)) watching_player) = Fin 50 \<and>
   aspectRatio (settings (user_action AspectButton watching_player)) = STRETCH \<and>
   playbackSpeed (settings (user_action SpeedButton watching_player)) = 5 / 4"
  by (simp add: watching_player_state handleSeek_def user_action_def state_after_def
      truthy_number_def loaded_media_def default_settings_def changeAspectRatio_def
      changeSpeed_def resetControlsTimer_from_def aspect_nextIndex_cases
      speed_nextIndex_cases aspect_order_def speeds_def Let_def)

text \<open>
  Claim C1. While the lock flag is set, the seek handler returns the state it was given,
  and invoking the seek bar, the aspect-ratio button or the speed button leaves the whole
  state unchanged, progress, the element's current time, the aspect ratio and the
  playback speed included: \<open>handleSeek\<close> tests the flag, and the three controls are not
  rendered, so their handlers are not called.
\<close>

theorem locked_controls_inert:
  "isLocked (settings s) \<Longrightarrow>
     handleSeek v s = Inr s \<and>
     user_action (SeekBar v) s = s \<and>
     user_action AspectButton s = s \<and>
     user_action SpeedButton s = s"
  by (simp add: handleSeek_def user_action_def)

theorem locked_controls_inert_witness:
  "isLocked (settings locked_player) \<and>
   handleSeek (Fin 50) locked_player = Inr locked_player \<and>
   user_action (SeekBar (Fin 50)) locked_player = locked_player \<and>
   user_action AspectButton locked_player = locked_player \<and>
   user_action SpeedButton locked_player = locked_player \<and>
   progress locked_player = Fin 25 \<and>
   videoRef locked_player = Some loaded_media \<and>
   el_duration loaded_media = Fin 120 \<and>
   handleSeek (Fin 50) watching_player \<noteq> Inr watching_player"
proof -
  have locked: "isLocked (settings locked_player)"
    by (simp add: locked_player_state)
  have moved: "handleSeek (Fin 50) watching_player \<noteq> Inr watching_player"
    by (simp add: watching_player_state handleSeek_def truthy_number_def loaded_media_def
        default_settings_def Let_def)
  from locked_controls_inert [OF locked, of "Fin 50"] locked moved show ?thesis
    by (simp add: locked_player_state loaded_media_def)
qed

section \<open>Binding a video\<close>

text \<open>
  Claim C2, as stated, fails: the load effect does not write the settings. A player at
  speed 1.25 that is given a new video is still at speed 1.25.
\<close>

theorem rebind_settings_counterexample:
  "settings (videoLoadEffect sample_video Fulfilled (changeSpeed player_init)) \<noteq>
     default_settings"
  by (simp add: videoLoadEffect_def changeSpeed_def player_init_def default_settings_def
      resetControlsTimer_from_def Let_def speed_nextIndex_cases speeds_def)

text \<open>
  Claim C2, amended. A newly mounted player has the default settings (speed 1, Fit,
  unlocked), and the load effect, which runs when a video is bound to a mounted player,
  leaves the settings as they are.
\<close>

theorem settings_across_binding:
  "settings player_init = default_settings \<and>
   default_settings = \<lparr>playbackSpeed = 1, aspectRatio = FIT, isLocked = False\<rparr> \<and>
   settings (videoLoadEffect video out s) = settings s"
  by (simp add: player_init_def default_settings_def videoLoadEffect_def
      resetControlsTimer_from_def Let_def split: option.split play_outcome.split)

theorem settings_across_binding_witness:
  "settings player_init = default_settings \<and>
   settings (videoLoadEffect sample_video Fulfilled (changeSpeed player_init)) =
     \<lparr>playbackSpeed = 5 / 4, aspectRatio = FIT, isLocked = False\<rparr>"
  using settings_across_binding [of sample_video Fulfilled "changeSpeed player_init"]
  by (simp add: changeSpeed_def player_init_def default_settings_def Let_def
      speed_nextIndex_cases speeds_def)

text \<open>
  Claim C3. The load effect clears the error and, when the media element is there, pauses
  it, gives it the URL of the video, reloads it, which puts the playback position at 0,
  and requests playback. When the request is fulfilled the player is playing; when it
  is rejected the player is not playing and no error is set.
\<close>

theorem video_load_effect_binds:
  "error (videoLoadEffect video out s) = None \<and>
   videoRef (videoLoadEffect video out s) =
     map_option (\<lambda>m. el_play out (el_load ((el_pause m)\<lparr>el_src := url video\<rparr>)))
       (videoRef s) \<and>
   (\<forall>m. videoRef s = Some m \<longrightarrow>
      (\<exists>m'. videoRef (videoLoadEffect video out s) = Some m' \<and>
            el_src m' = url video \<and> el_currentTime m' = Fin 0 \<and>
            el_paused m' = (out = Rejected)) \<and>
      isPlaying (videoLoadEffect video Fulfilled s) \<and>
      \<not> isPlaying (videoLoadEffect video Rejected s) \<and>
      error (videoLoadEffect video Rejected s) = None)"
  by (cases out)
     (auto simp: videoLoadEffect_def resetControlsTimer_from_def Let_def el_play_def
        el_load_def el_pause_def split: option.split)

theorem video_load_effect_binds_witness:
  "error failed_player \<noteq> None \<and>
   videoRef failed_player = Some (new_media\<lparr>el_playbackRate := 5 / 4\<rparr>) \<and>
   error (videoLoadEffect sample_video Rejected failed_player) = None \<and>
   \<not> isPlaying (videoLoadEffect sample_video Rejected failed_player) \<and>
   isPlaying (videoLoadEffect sample_video Fulfilled failed_player) \<and>
   (\<exists>m'. videoRef (videoLoadEffect sample_video Rejected failed_player) = Some m' \<and>
         el_src m' = ''blob:clip'' \<and> el_currentTime m' = Fin 0 \<and> el_paused m')"
proof -
  have ref: "videoRef failed_player = Some (new_media\<lparr>el_playbackRate := 5 / 4\<rparr>)"
    by (simp add: failed_player_def handleVideoError_def changeSpeed_def player_init_def
        default_settings_def Let_def speed_nextIndex_cases speeds_def)
  have err: "error failed_player \<noteq> None"
    by (simp add: failed_player_def handleVideoError_def)
  from video_load_effect_binds [of sample_video Rejected failed_player] ref err
  show ?thesis
    by (simp add: sample_video_def el_play_def el_load_def el_pause_def)
qed

end
